theory Spec2Isabelle
  imports Main "HOL-Library.AList"
begin

section \<open>Notification repository (notification.repository.ts)\<close>

subsection \<open>Documents and the collection\<close>

text \<open>
  A notification document carries the fields the repository filters and sorts on.
  Object ids and enum values are the strings they are at run time; \<open>createdAt\<close> is an
  instant in milliseconds since the epoch. The source's field names start with an
  underscore (\<open>_environmentId\<close>), which an identifier here cannot, so the fields carry
  the prefix \<open>n_\<close>.
\<close>

record notification =
  n_id :: string
  n_environmentId :: string
  n_organizationId :: string
  n_subscriberId :: string
  n_templateId :: string
  n_transactionId :: string
  n_channels :: "string list"
  n_createdAt :: int

record job =
  job_environmentId :: string
  job_type :: string
  job_rest :: string

text \<open>
  The collection is the list of stored documents together with the references that
  \<open>populate\<close> follows (\<open>subscriber\<close>, \<open>template\<close> and the virtual \<open>jobs\<close>), which the schema
  declares outside this file and which are therefore parameters here.
\<close>

record collection =
  documents :: "notification list"
  ref_subscriber :: "notification \<Rightarrow> string option"
  ref_template :: "notification \<Rightarrow> string option"
  ref_jobs :: "notification \<Rightarrow> job list"

record populated =
  doc :: notification
  subscriber :: "string option"
  template :: "string option"
  jobs :: "job list"

subsection \<open>The filter built by getFeed\<close>

text \<open>The optional arguments of \<open>getFeed\<close>: \<open>None\<close> is an absent (or null) field.\<close>

record feedQuery =
  channels :: "string list option"
  templates :: "string list option"
  subscriberIds :: "string list option"
  transactionId :: "string option"

definition emptyQuery :: feedQuery where
  "emptyQuery = \<lparr>channels = None, templates = None, subscriberIds = None, transactionId = None\<rparr>"

text \<open>\<open>FilterQuery\<close>: the environment id is always present, every other condition optional.\<close>

record requestQuery =
  rq_environmentId :: string
  rq_transactionId :: "string option"
  rq_templateId_in :: "string list option"
  rq_subscriberId_in :: "string list option"
  rq_channels_in :: "string list option"

text \<open>
  A document matches when every condition present holds. \<open>$in\<close> on the array field
  \<open>channels\<close> holds when some element of the array is in the given list.
\<close>

definition matches :: "requestQuery \<Rightarrow> notification \<Rightarrow> bool" where
  "matches rq d \<longleftrightarrow>
     n_environmentId d = rq_environmentId rq
     \<and> (case rq_transactionId rq of None \<Rightarrow> True | Some t \<Rightarrow> n_transactionId d = t)
     \<and> (case rq_templateId_in rq of None \<Rightarrow> True | Some ts \<Rightarrow> n_templateId d \<in> set ts)
     \<and> (case rq_subscriberId_in rq of None \<Rightarrow> True | Some ss \<Rightarrow> n_subscriberId d \<in> set ss)
     \<and> (case rq_channels_in rq of None \<Rightarrow> True
         | Some cs \<Rightarrow> list_ex (\<lambda>c. c \<in> set cs) (n_channels d))"

text \<open>
  The four \<open>if\<close> statements of \<open>getFeed\<close>, in their order. An empty transaction id is
  falsy and an empty subscriber list is skipped; an empty (but present) template or
  channel list is truthy and is installed as a filter.
\<close>

definition buildRequestQuery :: "string \<Rightarrow> feedQuery \<Rightarrow> requestQuery" where
  "buildRequestQuery environmentId query =
     (let rq0 = \<lparr>rq_environmentId = environmentId, rq_transactionId = None,
                 rq_templateId_in = None, rq_subscriberId_in = None, rq_channels_in = None\<rparr>;
          rq1 = (case transactionId query of
                   Some t \<Rightarrow> if t \<noteq> [] then rq0\<lparr>rq_transactionId := Some t\<rparr> else rq0
                 | None \<Rightarrow> rq0);
          rq2 = (case templates query of
                   Some ts \<Rightarrow> rq1\<lparr>rq_templateId_in := Some ts\<rparr>
                 | None \<Rightarrow> rq1);
          rq3 = (case subscriberIds query of
                   Some ss \<Rightarrow> if length ss > 0 then rq2\<lparr>rq_subscriberId_in := Some ss\<rparr> else rq2
                 | None \<Rightarrow> rq2);
          rq4 = (case channels query of
                   Some cs \<Rightarrow> rq3\<lparr>rq_channels_in := Some cs\<rparr>
                 | None \<Rightarrow> rq3)
      in rq4)"

subsection \<open>Query execution\<close>

definition find_docs :: "collection \<Rightarrow> requestQuery \<Rightarrow> notification list" where
  "find_docs coll rq = filter (matches rq) (documents coll)"

definition countDocuments :: "collection \<Rightarrow> requestQuery \<Rightarrow> nat" where
  "countDocuments coll rq = length (find_docs coll rq)"

text \<open>\<open>sort('-createdAt')\<close>: newest first (ties keep the order of the collection).\<close>

definition sort_createdAt_desc :: "notification list \<Rightarrow> notification list" where
  "sort_createdAt_desc ds = sort_key (\<lambda>d. - n_createdAt d) ds"

text \<open>A limit of 0 means no limit.\<close>

definition limit_docs :: "nat \<Rightarrow> 'a list \<Rightarrow> 'a list" where
  "limit_docs n ds = (if n = 0 then ds else take n ds)"

definition TRIGGER :: string where
  "TRIGGER = ''trigger''"

text \<open>
  \<open>populateFeed\<close> attaches the subscriber, the template and the jobs of each document;
  the jobs are matched on the environment id and on a type other than \<open>TRIGGER\<close>. The
  field selections only drop fields and are not modelled.
\<close>

definition populateFeed :: "collection \<Rightarrow> string \<Rightarrow> notification \<Rightarrow> populated" where
  "populateFeed coll environmentId d =
     \<lparr>doc = d,
      subscriber = ref_subscriber coll d,
      template = ref_template coll d,
      jobs = filter (\<lambda>j. job_environmentId j = environmentId \<and> job_type j \<notin> set [TRIGGER])
               (ref_jobs coll d)\<rparr>"

record feedPage =
  totalCount :: nat
  data :: "populated list"

text \<open>
  \<open>getFeed\<close>. Mongoose applies the sort before skip and limit whatever the order of the
  builder calls. An omitted \<open>query\<close>, \<open>skip\<close> or \<open>limit\<close> is the call with \<open>emptyQuery\<close>,
  0 and 10. \<open>mapEntities\<close> copies each document into an entity and keeps its fields.
\<close>

definition getFeed :: "collection \<Rightarrow> string \<Rightarrow> feedQuery \<Rightarrow> nat \<Rightarrow> nat \<Rightarrow> feedPage" where
  "getFeed coll environmentId query skip limit =
     (let requestQuery = buildRequestQuery environmentId query;
          totalCount = countDocuments coll requestQuery;
          response = map (populateFeed coll environmentId)
                       (limit_docs limit (drop skip (sort_createdAt_desc (find_docs coll requestQuery))))
      in \<lparr>totalCount = totalCount, data = response\<rparr>)"

subsection \<open>getStats\<close>

text \<open>
  \<open>subYears\<close>, \<open>subMonths\<close> and \<open>subWeeks\<close> come from the date-fns library and are
  parameters here: each takes an instant and a count and returns the earlier instant.
  \<open>Date.now()\<close> is the parameter \<open>now\<close>.
\<close>

record dateFns =
  subYears :: "int \<Rightarrow> int \<Rightarrow> int"
  subMonths :: "int \<Rightarrow> int \<Rightarrow> int"
  subWeeks :: "int \<Rightarrow> int \<Rightarrow> int"

record groupDoc =
  g_weekly :: nat
  g_monthly :: nat
  g_yearly :: nat

text \<open>
  The aggregation pipeline: \<open>$match\<close> keeps the documents of the environment created at
  or after \<open>yearBefore\<close>; \<open>$group\<close> with \<open>_id: null\<close> folds them into one group document,
  and yields no document at all when nothing matched.
\<close>

definition aggregate_stats ::
  "collection \<Rightarrow> string \<Rightarrow> int \<Rightarrow> int \<Rightarrow> int \<Rightarrow> groupDoc list" where
  "aggregate_stats coll environmentId yearBefore monthBefore weekBefore =
     (let matched = filter (\<lambda>d. n_environmentId d = environmentId \<and> n_createdAt d \<ge> yearBefore)
                      (documents coll)
      in if matched = [] then []
         else [\<lparr>g_weekly = sum_list (map (\<lambda>d. if n_createdAt d \<ge> weekBefore then 1 else 0) matched),
                g_monthly = sum_list (map (\<lambda>d. if n_createdAt d \<ge> monthBefore then 1 else 0) matched),
                g_yearly = sum_list (map (\<lambda>d. 1) matched)\<rparr>])"

record stats =
  weekly :: nat
  monthly :: nat
  yearly :: nat

text \<open>\<open>x || 0\<close> on a count that may be undefined.\<close>

definition or0 :: "nat option \<Rightarrow> nat" where
  "or0 x = (case x of None \<Rightarrow> 0 | Some n \<Rightarrow> if n = 0 then 0 else n)"

definition getStats :: "dateFns \<Rightarrow> int \<Rightarrow> collection \<Rightarrow> string \<Rightarrow> stats" where
  "getStats lib now coll environmentId =
     (let yearBefore = subYears lib now 1;
          monthBefore = subMonths lib now 1;
          weekBefore = subWeeks lib now 1;
          result = aggregate_stats coll environmentId yearBefore monthBefore weekBefore;
          stats = (case result of [] \<Rightarrow> None | g # _ \<Rightarrow> Some g)
      in \<lparr>weekly = or0 (map_option g_weekly stats),
          monthly = or0 (map_option g_monthly stats),
          yearly = or0 (map_option g_yearly stats)\<rparr>)"

text \<open>Milliseconds in a day and in an hour.\<close>

definition day :: int where
  "day = 86400000"

definition hour :: int where
  "hour = 3600000"

text \<open>
  What is assumed of the date library at the instant \<open>now\<close>: one week back is 7 days,
  one month back is 28 to 31 days and one year back is 365 to 366 days, each up to one
  hour of daylight-saving shift (the library subtracts in local time).
\<close>

definition calendar_bounds :: "dateFns \<Rightarrow> int \<Rightarrow> bool" where
  "calendar_bounds lib now \<longleftrightarrow>
     now - 7 * day - hour \<le> subWeeks lib now 1 \<and> subWeeks lib now 1 \<le> now - 7 * day + hour
   \<and> now - 31 * day - hour \<le> subMonths lib now 1 \<and> subMonths lib now 1 \<le> now - 28 * day + hour
   \<and> now - 366 * day - hour \<le> subYears lib now 1 \<and> subYears lib now 1 \<le> now - 365 * day + hour"

text \<open>The number of documents of an environment created at or after the instant \<open>t\<close>.\<close>

definition created_since :: "collection \<Rightarrow> string \<Rightarrow> int \<Rightarrow> nat" where
  "created_since coll environmentId t =
     length (filter (\<lambda>d. n_environmentId d = environmentId \<and> t \<le> n_createdAt d) (documents coll))"

section \<open>Feed store (notifications-provider.context.tsx)\<close>

subsection \<open>Values\<close>

text \<open>
  A failed operation is a rejected promise: either the remote call rejected, or the
  code threw a \<open>TypeError\<close> on an undefined value.
\<close>

datatype error = Rejected | TypeError

text \<open>
  Page numbers are JavaScript numbers: a natural number (page counts stay far below the
  range where doubles stop being exact) or \<open>NaN\<close>, which is what \<open>undefined + 1\<close> gives.
\<close>

datatype jsnumber = NaN | Num nat

text \<open>\<open>page.get(storeId) + 1\<close>, on the result of the lookup.\<close>

definition plus1 :: "jsnumber option \<Rightarrow> jsnumber" where
  "plus1 v = (case v of Some (Num n) \<Rightarrow> Num (n + 1) | Some NaN \<Rightarrow> NaN | None \<Rightarrow> NaN)"

datatype MessageActionStatusEnum = PENDING | DONE

datatype ButtonTypeEnum = PRIMARY | SECONDARY

text \<open>
  A message, as far as the provider reads and writes it: \<open>_id\<close>, \<open>seen\<close>, \<open>read\<close> (which
  may be undefined) and \<open>cta.action.status\<close>, where \<open>cta\<close>, \<open>action\<close> and \<open>status\<close> may each be
  undefined. \<open>content\<close> stands for the fields the provider never touches. Messages are
  decoded from remote responses, so no two of them share an object and an update in
  place is an update of that one value.
\<close>

record messageAction =
  a_status :: "MessageActionStatusEnum option"
  a_buttons :: "string list"

record messageCTA =
  action :: "messageAction option"
  cta_data :: string

record message =
  m_id :: string
  seen :: bool
  read :: "bool option"
  cta :: "messageCTA option"
  content :: string

type_synonym storeQuery = "(string \<times> string) list"

type_synonym payload = "(string \<times> string) list"

record feedStore =
  fs_storeId :: string
  fs_query :: "storeQuery option"

subsection \<open>The remote side and the provider's state\<close>

text \<open>
  What \<open>useApi\<close> and \<open>useFeed\<close> hand to the provider: for each remote call its outcome
  (\<open>Inl\<close> when the promise rejects), and the configured stores. The notification list of a
  response may be undefined, which the source allows for with \<open>?.\<close>.
\<close>

record hooks =
  getNotificationsList :: "jsnumber \<Rightarrow> storeQuery \<Rightarrow> error + message list option"
  markMessageAsRead :: "string \<Rightarrow> error + message"
  api_updateAction ::
    "string \<Rightarrow> ButtonTypeEnum \<Rightarrow> MessageActionStatusEnum \<Rightarrow> payload option \<Rightarrow> error + unit"
  markMessageAsSeen :: "string list \<Rightarrow> error + unit"
  stores :: "feedStore list option"

datatype apiCall =
    GetNotificationsList jsnumber storeQuery
  | MarkMessageAsRead string
  | UpdateAction string ButtonTypeEnum MessageActionStatusEnum "payload option"
  | MarkMessageAsSeen "string list"

datatype timeout = Timeout nat

text \<open>
  The five state cells of the provider, followed by what the run time holds: the remote
  calls made so far, the pending timers (handle, due time, store id of the callback, in
  the order they were set), the clock in milliseconds and the next free timer handle.
  \<open>notifications\<close> is an object, kept as an association list in insertion order; a key
  may hold \<open>undefined\<close> (\<open>None\<close>). \<open>page\<close>, \<open>hasNextPage\<close> and \<open>refetchTimeout\<close> are \<open>Map\<close>s,
  changed in place, so every closure sees their latest contents. Operations run one
  after another, each to completion.
\<close>

record state =
  notifications :: "(string \<times> message list option) list"
  page :: "string \<rightharpoonup> jsnumber"
  hasNextPage :: "string \<rightharpoonup> bool"
  fetching :: bool
  refetchTimeout :: "string \<rightharpoonup> timeout option"
  calls :: "apiCall list"
  timers :: "(timeout \<times> nat \<times> string) list"
  clock :: nat
  nextTimeout :: nat

definition default_store :: string where
  "default_store = ''default_store''"

definition initial_state :: state where
  "initial_state =
     \<lparr>notifications = [(default_store, Some [])],
      page = [default_store \<mapsto> Num 0],
      hasNextPage = [default_store \<mapsto> True],
      fetching = False,
      refetchTimeout = Map.empty,
      calls = [], timers = [], clock = 0, nextTimeout = 0\<rparr>"

text \<open>The provider's own state, without the run time's bookkeeping.\<close>

definition local_state ::
  "state \<Rightarrow> (string \<times> message list option) list \<times> (string \<rightharpoonup> jsnumber)
     \<times> (string \<rightharpoonup> bool) \<times> bool \<times> (string \<rightharpoonup> timeout option)" where
  "local_state s = (notifications s, page s, hasNextPage s, fetching s, refetchTimeout s)"

subsection \<open>fetchPage and fetchNextPage\<close>

definition getStoreQuery :: "hooks \<Rightarrow> string \<Rightarrow> storeQuery" where
  "getStoreQuery c storeId =
     (case stores c of
        None \<Rightarrow> []
      | Some ss \<Rightarrow>
          (case find (\<lambda>store. fs_storeId store = storeId) ss of
             None \<Rightarrow> []
           | Some store \<Rightarrow> (case fs_query store of None \<Rightarrow> [] | Some q \<Rightarrow> q)))"

text \<open>\<open>newNotifications?.length < 10\<close>: false on an undefined response.\<close>

definition shortPage :: "message list option \<Rightarrow> bool" where
  "shortPage newNotifications =
     (case newNotifications of None \<Rightarrow> False | Some ns \<Rightarrow> length ns < 10)"

text \<open>\<open>notifications[storeId] || []\<close>.\<close>

definition storedOrEmpty :: "(string \<times> message list option) list \<Rightarrow> string \<Rightarrow> message list" where
  "storedOrEmpty ns storeId =
     (case map_of ns storeId of Some (Some ms) \<Rightarrow> ms | Some None \<Rightarrow> [] | None \<Rightarrow> [])"

text \<open>
  \<open>fetchPage\<close>. The result is the error of a rejected promise, if any, and the state left
  behind. Spreading an undefined response throws after has-more and the page entry have
  been written. Callers in this file pass every argument.
\<close>

definition fetchPage ::
  "hooks \<Rightarrow> jsnumber \<Rightarrow> bool \<Rightarrow> string \<Rightarrow> state \<Rightarrow> error option \<times> state" where
  "fetchPage c pageToFetch isRefetch storeId s0 =
     (let s1 = s0\<lparr>fetching := True,
                  calls := calls s0 @ [GetNotificationsList pageToFetch (getStoreQuery c storeId)]\<rparr>
      in case getNotificationsList c pageToFetch (getStoreQuery c storeId) of
           Inl e \<Rightarrow> (Some e, s1)
         | Inr newNotifications \<Rightarrow>
             (let s2 = (if shortPage newNotifications
                        then s1\<lparr>hasNextPage := (hasNextPage s1)(storeId \<mapsto> False)\<rparr>
                        else s1\<lparr>hasNextPage := (hasNextPage s1)(storeId \<mapsto> True)\<rparr>);
                  s3 = (if page s2 storeId = None
                        then s2\<lparr>page := (page s2)(storeId \<mapsto> Num 0)\<rparr>
                        else s2)
              in if isRefetch then
                   (None, s3\<lparr>notifications :=
                               AList.update storeId newNotifications (notifications s3),
                             fetching := False\<rparr>)
                 else
                   (case newNotifications of
                      None \<Rightarrow> (Some TypeError, s3)
                    | Some ns \<Rightarrow>
                        (None, s3\<lparr>notifications :=
                                    AList.update storeId
                                      (Some (storedOrEmpty (notifications s3) storeId @ ns))
                                      (notifications s3),
                                  fetching := False\<rparr>))))"

text \<open>
  \<open>fetchNextPage\<close>; a call without a store id is the call with \<open>default_store\<close>. The
  guard \<open>!hasNextPage.get(storeId)\<close> holds for \<open>false\<close> and for a missing entry.
\<close>

definition fetchNextPage :: "hooks \<Rightarrow> string \<Rightarrow> state \<Rightarrow> error option \<times> state" where
  "fetchNextPage c storeId s0 =
     (if hasNextPage s0 storeId \<noteq> Some True then (None, s0)
      else
        (let nextPage = plus1 (page s0 storeId);
             s1 = s0\<lparr>page := (page s0)(storeId \<mapsto> nextPage)\<rparr>
         in fetchPage c nextPage False storeId s1))"

subsection \<open>markAsRead and updateAction\<close>

definition markAsRead :: "hooks \<Rightarrow> string \<Rightarrow> state \<Rightarrow> (error + message) \<times> state" where
  "markAsRead c messageId s0 =
     (markMessageAsRead c messageId, s0\<lparr>calls := calls s0 @ [MarkMessageAsRead messageId]\<rparr>)"

text \<open>\<open>message.cta.action.status = MessageActionStatusEnum.DONE\<close>.\<close>

definition setStatusDone :: "message \<Rightarrow> error + message" where
  "setStatusDone m =
     (case cta m of
        None \<Rightarrow> Inl TypeError
      | Some ct \<Rightarrow>
          (case action ct of
             None \<Rightarrow> Inl TypeError
           | Some a \<Rightarrow> Inr (m\<lparr>cta := Some (ct\<lparr>action := Some (a\<lparr>a_status := Some DONE\<rparr>)\<rparr>)\<rparr>)))"

text \<open>\<open>message.cta?.action?.status\<close>, the action status a message shows.\<close>

definition action_status :: "message \<Rightarrow> MessageActionStatusEnum option" where
  "action_status m =
     (case cta m of
        None \<Rightarrow> None
      | Some ct \<Rightarrow> (case action ct of None \<Rightarrow> None | Some a \<Rightarrow> a_status a))"

text \<open>
  The callback of \<open>map\<close> over one store's list. It writes into the messages themselves,
  so when it throws, the messages before the failing one stay patched.
\<close>

fun patchMessages :: "string \<Rightarrow> message list \<Rightarrow> error option \<times> message list" where
  "patchMessages messageId [] = (None, [])"
| "patchMessages messageId (m # ms) =
     (if m_id m = messageId then
        (case setStatusDone m of
           Inl e \<Rightarrow> (Some e, m # ms)
         | Inr m' \<Rightarrow> (case patchMessages messageId ms of (e, ms') \<Rightarrow> (e, m' # ms')))
      else (case patchMessages messageId ms of (e, ms') \<Rightarrow> (e, m # ms')))"

text \<open>The \<open>for ... in\<close> loop over the stores; \<open>map\<close> of an undefined list throws.\<close>

fun patchStores ::
  "string \<Rightarrow> (string \<times> message list option) list
     \<Rightarrow> error option \<times> (string \<times> message list option) list" where
  "patchStores messageId [] = (None, [])"
| "patchStores messageId ((storeId, v) # rest) =
     (case v of
        None \<Rightarrow> (Some TypeError, (storeId, v) # rest)
      | Some ms \<Rightarrow>
          (case patchMessages messageId ms of
             (Some e, ms') \<Rightarrow> (Some e, (storeId, Some ms') # rest)
           | (None, ms') \<Rightarrow>
               (case patchStores messageId rest of
                  (e, rest') \<Rightarrow> (e, (storeId, Some ms') # rest'))))"

definition updateAction ::
  "hooks \<Rightarrow> string \<Rightarrow> ButtonTypeEnum \<Rightarrow> MessageActionStatusEnum \<Rightarrow> payload option \<Rightarrow> state
     \<Rightarrow> error option \<times> state" where
  "updateAction c messageId actionButtonType status pl s0 =
     (let s1 = s0\<lparr>calls := calls s0 @ [UpdateAction messageId actionButtonType status pl]\<rparr>
      in case api_updateAction c messageId actionButtonType status pl of
           Inl e \<Rightarrow> (Some e, s1)
         | Inr _ \<Rightarrow>
             (case patchStores messageId (notifications s1) of
                (e, ns) \<Rightarrow> (e, s1\<lparr>notifications := ns\<rparr>)))"

subsection \<open>refetch and the timers\<close>

definition setTimeout :: "string \<Rightarrow> nat \<Rightarrow> state \<Rightarrow> timeout \<times> state" where
  "setTimeout storeId delay s =
     (Timeout (nextTimeout s),
      s\<lparr>timers := timers s @ [(Timeout (nextTimeout s), clock s + delay, storeId)],
        nextTimeout := Suc (nextTimeout s)\<rparr>)"

definition clearTimeout :: "timeout \<Rightarrow> state \<Rightarrow> state" where
  "clearTimeout h s = s\<lparr>timers := filter (\<lambda>tm. fst tm \<noteq> h) (timers s)\<rparr>"

text \<open>
  \<open>refetch\<close>; the timer's callback is \<open>fetchPage(0, true, storeId)\<close>, kept in the timer
  queue as its store id. A handle is truthy, \<open>null\<close> and a missing entry are falsy.
\<close>

definition refetch :: "string \<Rightarrow> state \<Rightarrow> state" where
  "refetch storeId s0 =
     (let s1 = s0\<lparr>fetching := True\<rparr>;
          s2 = (case refetchTimeout s1 storeId of
                  Some (Some h) \<Rightarrow>
                    (clearTimeout h s1)\<lparr>refetchTimeout := (refetchTimeout s1)(storeId \<mapsto> None)\<rparr>
                | Some None \<Rightarrow> s1
                | None \<Rightarrow> s1);
          hs = setTimeout storeId 250 s2
      in (snd hs)\<lparr>refetchTimeout := (refetchTimeout (snd hs))(storeId \<mapsto> Some (fst hs))\<rparr>)"

text \<open>
  The passing of time. The timers due at \<open>t\<close> fire in the order of their due times (and
  of their setting, among equal ones); a firing timer leaves the queue and runs its
  callback, whose rejection nobody observes.
\<close>

definition due_timers :: "nat \<Rightarrow> state \<Rightarrow> (timeout \<times> nat \<times> string) list" where
  "due_timers t s = sort_key (\<lambda>tm. fst (snd tm)) (filter (\<lambda>tm. fst (snd tm) \<le> t) (timers s))"

definition fireTimer :: "hooks \<Rightarrow> timeout \<times> nat \<times> string \<Rightarrow> state \<Rightarrow> state" where
  "fireTimer c tm s =
     snd (fetchPage c (Num 0) True (snd (snd tm))
            (s\<lparr>timers := filter (\<lambda>tm'. fst tm' \<noteq> fst tm) (timers s),
               clock := max (clock s) (fst (snd tm))\<rparr>))"

definition advance :: "hooks \<Rightarrow> nat \<Rightarrow> state \<Rightarrow> state" where
  "advance c t s = (fold (fireTimer c) (due_timers t s) s)\<lparr>clock := max (clock s) t\<rparr>"

text \<open>
  Vocabulary for the debounce: the timers of a list that belong to a store, the page-0
  requests made by a list of firing timers, and the condition that every pending timer
  of a store is the one recorded for it in \<open>refetchTimeout\<close>.
\<close>

definition for_store ::
  "string \<Rightarrow> (timeout \<times> nat \<times> string) list \<Rightarrow> (timeout \<times> nat \<times> string) list" where
  "for_store storeId tms = filter (\<lambda>tm. snd (snd tm) = storeId) tms"

definition page0_fetches :: "hooks \<Rightarrow> (timeout \<times> nat \<times> string) list \<Rightarrow> apiCall list" where
  "page0_fetches c tms =
     map (\<lambda>tm. GetNotificationsList (Num 0) (getStoreQuery c (snd (snd tm)))) tms"

definition tracked :: "string \<Rightarrow> state \<Rightarrow> bool" where
  "tracked storeId s \<longleftrightarrow>
     (\<forall>tm \<in> set (timers s). snd (snd tm) = storeId \<longrightarrow>
        refetchTimeout s storeId = Some (Some (fst tm)))"

subsection \<open>markNotificationsAsSeen\<close>

text \<open>The argument \<open>messagesToMark\<close>: one message or an array; \<open>None\<close> when omitted.\<close>

datatype messagesArg = Single message | Many "message list"

definition getNotificationsToMark ::
  "messagesArg option \<Rightarrow> (string \<times> message list option) list \<Rightarrow> string
     \<Rightarrow> error + message list" where
  "getNotificationsToMark messagesToMark ns storeId =
     (case messagesToMark of
        Some (Many ms) \<Rightarrow> Inr ms
      | Some (Single m) \<Rightarrow> Inr [m]
      | None \<Rightarrow>
          (case map_of ns storeId of
             Some (Some ms) \<Rightarrow> Inr (filter (\<lambda>notification. \<not> seen notification) ms)
           | Some None \<Rightarrow> Inl TypeError
           | None \<Rightarrow> Inl TypeError))"

definition filterReadNotifications :: "bool option \<Rightarrow> message list \<Rightarrow> message list" where
  "filterReadNotifications readExist notificationsToMark =
     (if readExist = Some True
      then filter (\<lambda>msg. read msg \<noteq> None) notificationsToMark
      else notificationsToMark)"

definition markNotificationsAsSeen ::
  "hooks \<Rightarrow> bool option \<Rightarrow> messagesArg option \<Rightarrow> string \<Rightarrow> state \<Rightarrow> error option \<times> state" where
  "markNotificationsAsSeen c readExist messagesToMark storeId s0 =
     (case getNotificationsToMark messagesToMark (notifications s0) storeId of
        Inl e \<Rightarrow> (Some e, s0)
      | Inr notificationsToMark \<Rightarrow>
          if length notificationsToMark \<noteq> 0 then
            (let notificationsToUpdate = filterReadNotifications readExist notificationsToMark;
                 ids = map m_id notificationsToUpdate
             in (case markMessageAsSeen c ids of Inl e \<Rightarrow> Some e | Inr _ \<Rightarrow> None,
                 s0\<lparr>calls := calls s0 @ [MarkMessageAsSeen ids]\<rparr>))
          else (None, s0))"

text \<open>The ids handed to the remote mark-as-seen call in a list of calls.\<close>

fun seen_ids_sent :: "apiCall list \<Rightarrow> string list" where
  "seen_ids_sent [] = []"
| "seen_ids_sent (MarkMessageAsSeen ids # cs) = ids @ seen_ids_sent cs"
| "seen_ids_sent (_ # cs) = seen_ids_sent cs"

section \<open>Sample data\<close>


definition sample_doc :: "string \<Rightarrow> string \<Rightarrow> int \<Rightarrow> notification" where
  "sample_doc i e t =
     \<lparr>n_id = i, n_environmentId = e, n_organizationId = ''org'', n_subscriberId = ''sub'',
      n_templateId = ''tpl'', n_transactionId = ''tx'', n_channels = [''in_app''],
      n_createdAt = t\<rparr>"

definition sample_collection :: "notification list \<Rightarrow> collection" where
  "sample_collection ds =
     \<lparr>documents = ds, ref_subscriber = (\<lambda>d. None), ref_template = (\<lambda>d. None),
      ref_jobs = (\<lambda>d. [])\<rparr>"

text \<open>A date library with months of 30 days and years of 365 days, for examples.\<close>

definition fixed_length_calendar :: dateFns where
  "fixed_length_calendar =
     \<lparr>subYears = (\<lambda>t n. t - n * 365 * day),
      subMonths = (\<lambda>t n. t - n * 30 * day),
      subWeeks = (\<lambda>t n. t - n * 7 * day)\<rparr>"

text \<open>A message with a pending action button.\<close>

definition sample_message :: "string \<Rightarrow> bool \<Rightarrow> bool option \<Rightarrow> message" where
  "sample_message i sn rd =
     \<lparr>m_id = i, seen = sn, read = rd,
      cta = Some \<lparr>action = Some \<lparr>a_status = Some PENDING, a_buttons = [''primary'']\<rparr>,
                  cta_data = ''''\<rparr>,
      content = ''hello''\<rparr>"

text \<open>
  A remote side that answers every list request with the given notifications and
  resolves every other call, and one whose every call rejects.
\<close>

definition sample_hooks :: "message list \<Rightarrow> hooks" where
  "sample_hooks ns =
     \<lparr>getNotificationsList = (\<lambda>p q. Inr (Some ns)),
      markMessageAsRead = (\<lambda>i. Inr ((sample_message i True (Some True)))),
      api_updateAction = (\<lambda>i b st pl. Inr ()),
      markMessageAsSeen = (\<lambda>ids. Inr ()),
      stores = None\<rparr>"

definition rejecting_hooks :: hooks where
  "rejecting_hooks =
     \<lparr>getNotificationsList = (\<lambda>p q. Inl Rejected),
      markMessageAsRead = (\<lambda>i. Inl Rejected),
      api_updateAction = (\<lambda>i b st pl. Inl Rejected),
      markMessageAsSeen = (\<lambda>ids. Inl Rejected),
      stores = None\<rparr>"

text \<open>A state in which two stores hold messages.\<close>

definition sample_state :: state where
  "sample_state =
     initial_state\<lparr>notifications :=
       [(default_store, Some [sample_message ''m1'' False None, sample_message ''m2'' True None,
           sample_message ''m3'' False (Some False)]),
        (''archive'', Some [sample_message ''m1'' True None])]\<rparr>"

section \<open>Properties of the repository\<close>

subsection \<open>getFeed\<close>

lemma buildRequestQuery_environmentId:
  "rq_environmentId (buildRequestQuery environmentId query) = environmentId"
  by (simp add: buildRequestQuery_def Let_def split: option.split)

lemma find_docs_environmentId:
  "d \<in> set (find_docs coll (buildRequestQuery environmentId query)) \<Longrightarrow>
   n_environmentId d = environmentId"
  by (simp add: find_docs_def matches_def buildRequestQuery_environmentId)

lemma set_limit_docs: "set (limit_docs n ds) \<subseteq> set ds"
  by (auto simp: limit_docs_def dest: in_set_takeD)

lemma getFeed_docs_subset:
  "doc ` set (data (getFeed coll environmentId query skip limit))
   \<subseteq> set (find_docs coll (buildRequestQuery environmentId query))"
proof -
  have "set (limit_docs limit (drop skip (sort_createdAt_desc ds))) \<subseteq> set ds" for ds
  proof -
    have "set (drop skip (sort_createdAt_desc ds)) \<subseteq> set ds"
      using set_drop_subset [of skip "sort_createdAt_desc ds"]
      by (simp add: sort_createdAt_desc_def)
    with set_limit_docs [of limit "drop skip (sort_createdAt_desc ds)"]
    show ?thesis by blast
  qed
  then have sub: "set (limit_docs limit (drop skip (sort_createdAt_desc
        (find_docs coll (buildRequestQuery environmentId query)))))
      \<subseteq> set (find_docs coll (buildRequestQuery environmentId query))" .
  have "doc ` set (data (getFeed coll environmentId query skip limit))
      = set (limit_docs limit (drop skip (sort_createdAt_desc
          (find_docs coll (buildRequestQuery environmentId query)))))"
    by (simp add: getFeed_def Let_def populateFeed_def image_image)
  with sub show ?thesis by simp
qed

text \<open>
  C1. Every record returned by \<open>getFeed\<close> for environment \<open>E1\<close> has environment id \<open>E1\<close>,
  whatever the filter, skip and limit; so for \<open>E2\<close> different from \<open>E1\<close> no returned
  record has environment id \<open>E2\<close>.
\<close>

theorem getFeed_tenant_isolation:
  "(\<forall>r \<in> set (data (getFeed coll E1 query skip limit)). n_environmentId (doc r) = E1)
   \<and> (E1 \<noteq> E2 \<longrightarrow>
        \<not> (\<exists>r \<in> set (data (getFeed coll E1 query skip limit)). n_environmentId (doc r) = E2))"
proof -
  have "n_environmentId (doc r) = E1"
    if "r \<in> set (data (getFeed coll E1 query skip limit))" for r
  proof -
    from that have "doc r \<in> set (find_docs coll (buildRequestQuery E1 query))"
      using getFeed_docs_subset [of coll E1 query skip limit] by blast
    then show ?thesis by (rule find_docs_environmentId)
  qed
  then show ?thesis by blast
qed

theorem getFeed_tenant_isolation_witness:
  "map (\<lambda>r. (n_id (doc r), n_environmentId (doc r)))
      (data (getFeed (sample_collection [sample_doc ''a'' ''E1'' 1, sample_doc ''b'' ''E2'' 2,
         sample_doc ''c'' ''E1'' 3]) ''E1'' emptyQuery 0 10))
    = [(''c'', ''E1''), (''a'', ''E1'')]
   \<and> ''E1'' \<noteq> ''E2''
   \<and> \<not> (\<exists>r \<in> set (data (getFeed (sample_collection [sample_doc ''a'' ''E1'' 1,
         sample_doc ''b'' ''E2'' 2, sample_doc ''c'' ''E1'' 3]) ''E1'' emptyQuery 0 10)).
         n_environmentId (doc r) = ''E2'')"
  using getFeed_tenant_isolation [of "sample_collection [sample_doc ''a'' ''E1'' 1,
      sample_doc ''b'' ''E2'' 2, sample_doc ''c'' ''E1'' 3]" "''E1''" emptyQuery 0 10 "''E2''"]
  by (simp add: getFeed_def sample_collection_def sample_doc_def emptyQuery_def
      buildRequestQuery_def countDocuments_def find_docs_def matches_def
      sort_createdAt_desc_def limit_docs_def populateFeed_def)

subsection \<open>getStats\<close>

lemma sum_list_cond: "sum_list (map (\<lambda>d. if Q d then 1 else 0) xs) = length (filter Q xs)"
  by (induction xs) auto

lemma sum_list_ones: "sum_list (map (\<lambda>d. Suc 0) xs) = length xs"
  by (induction xs) auto

lemma getStats_raw:
  "weekly (getStats lib now coll E) =
     length (filter (\<lambda>d. subWeeks lib now 1 \<le> n_createdAt d)
       (filter (\<lambda>d. n_environmentId d = E \<and> subYears lib now 1 \<le> n_createdAt d) (documents coll)))"
  "monthly (getStats lib now coll E) =
     length (filter (\<lambda>d. subMonths lib now 1 \<le> n_createdAt d)
       (filter (\<lambda>d. n_environmentId d = E \<and> subYears lib now 1 \<le> n_createdAt d) (documents coll)))"
  "yearly (getStats lib now coll E) =
     length (filter (\<lambda>d. n_environmentId d = E \<and> subYears lib now 1 \<le> n_createdAt d) (documents coll))"
  by (auto simp: getStats_def aggregate_stats_def Let_def or0_def sum_list_cond sum_list_ones
      filter_empty_conv)

lemma narrower_window:
  assumes "y \<le> t"
  shows "length (filter (\<lambda>d. t \<le> n_createdAt d)
           (filter (\<lambda>d. n_environmentId d = E \<and> y \<le> n_createdAt d) (documents coll)))
         = created_since coll E t"
proof -
  have "(n_environmentId d = E \<and> y \<le> n_createdAt d) \<and> t \<le> n_createdAt d
        \<longleftrightarrow> n_environmentId d = E \<and> t \<le> n_createdAt d" for d :: notification
    using assms by auto
  then show ?thesis
    by (simp add: created_since_def)
qed

lemma calendar_bounds_order:
  assumes "calendar_bounds lib now"
  shows "subYears lib now 1 \<le> subMonths lib now 1" "subYears lib now 1 \<le> subWeeks lib now 1"
  using assms by (simp_all add: calendar_bounds_def day_def hour_def)

text \<open>
  C8. \<open>getStats\<close> counts by conditional sums over the one-year window: the weekly count is
  the number of the environment's records created since one week before now, the monthly
  count those since one month before, the yearly count those since one year before. So
  for records created 8, 40 and 400 days before now it yields weekly 0, monthly 1 and
  yearly 2.
\<close>

theorem getStats_windows:
  assumes "calendar_bounds lib now"
  shows "weekly (getStats lib now coll E) = created_since coll E (subWeeks lib now 1)
       \<and> monthly (getStats lib now coll E) = created_since coll E (subMonths lib now 1)
       \<and> yearly (getStats lib now coll E) = created_since coll E (subYears lib now 1)
       \<and> (map n_createdAt (filter (\<lambda>d. n_environmentId d = E) (documents coll))
            = [now - 8 * day, now - 40 * day, now - 400 * day]
          \<longrightarrow> getStats lib now coll E = \<lparr>weekly = 0, monthly = 1, yearly = 2\<rparr>)"
proof -
  have w: "weekly (getStats lib now coll E) = created_since coll E (subWeeks lib now 1)"
    by (simp only: getStats_raw narrower_window [OF calendar_bounds_order(2) [OF assms]])
  have m: "monthly (getStats lib now coll E) = created_since coll E (subMonths lib now 1)"
    by (simp only: getStats_raw narrower_window [OF calendar_bounds_order(1) [OF assms]])
  have y: "yearly (getStats lib now coll E) = created_since coll E (subYears lib now 1)"
    by (simp only: getStats_raw created_since_def)
  have ex: "getStats lib now coll E = \<lparr>weekly = 0, monthly = 1, yearly = 2\<rparr>"
    if three: "map n_createdAt (filter (\<lambda>d. n_environmentId d = E) (documents coll))
            = [now - 8 * day, now - 40 * day, now - 400 * day]"
  proof -
    have split: "created_since coll E t
        = length (filter (\<lambda>c. t \<le> c)
            (map n_createdAt (filter (\<lambda>d. n_environmentId d = E) (documents coll))))" for t
      by (simp add: created_since_def filter_map comp_def conj_commute)
    from assms have "created_since coll E (subWeeks lib now 1) = 0"
      "created_since coll E (subMonths lib now 1) = 1"
      "created_since coll E (subYears lib now 1) = 2"
      unfolding split three by (simp_all add: calendar_bounds_def day_def hour_def)
    with w m y show ?thesis by simp
  qed
  from w m y ex show ?thesis by blast
qed

theorem getStats_windows_witness:
  "calendar_bounds fixed_length_calendar (500 * day)
   \<and> getStats fixed_length_calendar (500 * day)
       (sample_collection [sample_doc ''a'' ''E1'' (500 * day - 8 * day),
          sample_doc ''b'' ''E1'' (500 * day - 40 * day), sample_doc ''d'' ''E2'' (499 * day),
          sample_doc ''c'' ''E1'' (500 * day - 400 * day)]) ''E1''
     = \<lparr>weekly = 0, monthly = 1, yearly = 2\<rparr>"
proof -
  have cb: "calendar_bounds fixed_length_calendar (500 * day)"
    by (simp add: calendar_bounds_def fixed_length_calendar_def day_def hour_def)
  show ?thesis
    using cb getStats_windows [OF cb, of "sample_collection [sample_doc ''a'' ''E1'' (500 * day - 8 * day),
          sample_doc ''b'' ''E1'' (500 * day - 40 * day), sample_doc ''d'' ''E2'' (499 * day),
          sample_doc ''c'' ''E1'' (500 * day - 400 * day)]" "''E1''"]
    by (simp add: sample_collection_def sample_doc_def)
qed

section \<open>Properties of the feed store\<close>

subsection \<open>Paging\<close>

lemma fetchPage_resolved:
  assumes "fetchPage c pageToFetch isRefetch storeId s = (None, s')"
  shows "\<exists>resp. getNotificationsList c pageToFetch (getStoreQuery c storeId) = Inr resp
           \<and> hasNextPage s' storeId = Some (\<not> shortPage resp)"
  using assms
  by (auto simp: fetchPage_def Let_def split: sum.splits if_splits option.splits)

lemma fetchPage_completes:
  assumes "getNotificationsList c pageToFetch (getStoreQuery c storeId) = Inr (Some ns)"
  shows "fst (fetchPage c pageToFetch isRefetch storeId s) = None"
  using assms by (simp add: fetchPage_def Let_def)

lemma fetchNextPage_guard:
  assumes "hasNextPage s storeId \<noteq> Some True"
  shows "fetchNextPage c storeId s = (None, s)"
  using assms by (simp add: fetchNextPage_def)

text \<open>
  C2. When \<open>fetchPage\<close> completes, the store's has-more flag is false exactly when the
  fetch returned fewer than 10 items (and \<open>fetchPage\<close> does complete whenever the remote
  call resolves with a list); and when a store's has-more flag is false, \<open>fetchNextPage\<close>
  on it makes no remote call and changes no state.
\<close>

theorem fetchPage_sets_hasNextPage:
  "(fetchPage c pageToFetch isRefetch storeId s = (None, s') \<longrightarrow>
      (\<exists>resp. getNotificationsList c pageToFetch (getStoreQuery c storeId) = Inr resp
         \<and> (hasNextPage s' storeId = Some False \<longleftrightarrow> (\<exists>ns. resp = Some ns \<and> length ns < 10))
         \<and> (hasNextPage s' storeId = Some True \<longleftrightarrow> \<not> (\<exists>ns. resp = Some ns \<and> length ns < 10))))
   \<and> (getNotificationsList c pageToFetch (getStoreQuery c storeId) = Inr (Some ns) \<longrightarrow>
        fst (fetchPage c pageToFetch isRefetch storeId s) = None)
   \<and> (hasNextPage t storeId = Some False \<longrightarrow> fetchNextPage c storeId t = (None, t))"
proof (intro conjI impI)
  assume "fetchPage c pageToFetch isRefetch storeId s = (None, s')"
  then obtain resp where
    r: "getNotificationsList c pageToFetch (getStoreQuery c storeId) = Inr resp"
    and h: "hasNextPage s' storeId = Some (\<not> shortPage resp)"
    using fetchPage_resolved by blast
  have "shortPage resp \<longleftrightarrow> (\<exists>ns. resp = Some ns \<and> length ns < 10)"
    by (cases resp) (simp_all add: shortPage_def)
  with r h show "\<exists>resp. getNotificationsList c pageToFetch (getStoreQuery c storeId) = Inr resp
         \<and> (hasNextPage s' storeId = Some False \<longleftrightarrow> (\<exists>ns. resp = Some ns \<and> length ns < 10))
         \<and> (hasNextPage s' storeId = Some True \<longleftrightarrow> \<not> (\<exists>ns. resp = Some ns \<and> length ns < 10))"
    by auto
next
  assume "getNotificationsList c pageToFetch (getStoreQuery c storeId) = Inr (Some ns)"
  then show "fst (fetchPage c pageToFetch isRefetch storeId s) = None"
    by (rule fetchPage_completes)
next
  assume "hasNextPage t storeId = Some False"
  then show "fetchNextPage c storeId t = (None, t)"
    by (simp add: fetchNextPage_guard)
qed

theorem fetchPage_sets_hasNextPage_witness:
  "fst (fetchPage (sample_hooks [sample_message ''m1'' False None]) (Num 1) False default_store
          initial_state) = None
   \<and> hasNextPage (snd (fetchPage (sample_hooks [sample_message ''m1'' False None]) (Num 1) False
          default_store initial_state)) default_store = Some False
   \<and> fetchNextPage (sample_hooks [sample_message ''m1'' False None]) default_store
        (snd (fetchPage (sample_hooks [sample_message ''m1'' False None]) (Num 1) False
          default_store initial_state))
      = (None, snd (fetchPage (sample_hooks [sample_message ''m1'' False None]) (Num 1) False
          default_store initial_state))"
proof -
  let ?c = "sample_hooks [sample_message ''m1'' False None]"
  let ?s' = "snd (fetchPage ?c (Num 1) False default_store initial_state)"
  have f: "fst (fetchPage ?c (Num 1) False default_store initial_state) = None"
    by (simp add: fetchPage_def sample_hooks_def Let_def)
  then have run: "fetchPage ?c (Num 1) False default_store initial_state = (None, ?s')"
    by (simp add: prod_eq_iff)
  have h: "hasNextPage ?s' default_store = Some False"
    by (simp add: fetchPage_def sample_hooks_def Let_def shortPage_def)
  from fetchPage_sets_hasNextPage [of ?c "Num 1" False default_store initial_state ?s'
      "[sample_message ''m1'' False None]" ?s'] f h
  show ?thesis by simp
qed




text \<open>
  A failed fetch does not leave the page number unchanged: with a remote side that
  rejects, \<open>fetchNextPage\<close> on \<open>default_store\<close> in the initial state fails and the stored
  page number has gone from 0 to 1.
\<close>

theorem fetchNextPage_rejected_counterexample:
  "fst (fetchNextPage rejecting_hooks default_store initial_state) = Some Rejected
   \<and> page initial_state default_store = Some (Num 0)
   \<and> page (snd (fetchNextPage rejecting_hooks default_store initial_state)) default_store
       = Some (Num 1)"
  by (simp add: fetchNextPage_def fetchPage_def initial_state_def rejecting_hooks_def
      plus1_def Let_def)

text \<open>
  C4, as the code has it. The has-more flag and the message lists change only after
  the remote call has resolved: a rejected call leaves them as they were. \<open>fetchPage\<close>
  leaves the page numbers unchanged on a rejected call, but \<open>fetchNextPage\<close> stores the
  advanced page number before it fetches, so after a rejected call the store's page
  number is already advanced by one.
\<close>

theorem rejected_fetch_effects:
  "(getNotificationsList c pageToFetch (getStoreQuery c storeId) = Inl e \<longrightarrow>
      fst (fetchPage c pageToFetch isRefetch storeId s) = Some e
      \<and> hasNextPage (snd (fetchPage c pageToFetch isRefetch storeId s)) = hasNextPage s
      \<and> notifications (snd (fetchPage c pageToFetch isRefetch storeId s)) = notifications s
      \<and> page (snd (fetchPage c pageToFetch isRefetch storeId s)) = page s)
   \<and> (hasNextPage s storeId = Some True
        \<and> getNotificationsList c (plus1 (page s storeId)) (getStoreQuery c storeId) = Inl e \<longrightarrow>
      fst (fetchNextPage c storeId s) = Some e
      \<and> hasNextPage (snd (fetchNextPage c storeId s)) = hasNextPage s
      \<and> notifications (snd (fetchNextPage c storeId s)) = notifications s
      \<and> page (snd (fetchNextPage c storeId s)) = (page s)(storeId \<mapsto> plus1 (page s storeId)))"
  by (simp add: fetchNextPage_def fetchPage_def Let_def)

theorem rejected_fetch_effects_witness:
  "hasNextPage initial_state default_store = Some True
   \<and> getNotificationsList rejecting_hooks (plus1 (page initial_state default_store))
       (getStoreQuery rejecting_hooks default_store) = Inl Rejected
   \<and> fst (fetchNextPage rejecting_hooks default_store initial_state) = Some Rejected
   \<and> hasNextPage (snd (fetchNextPage rejecting_hooks default_store initial_state))
       = hasNextPage initial_state
   \<and> page (snd (fetchNextPage rejecting_hooks default_store initial_state)) default_store
       = Some (Num 1)"
proof -
  have a: "hasNextPage initial_state default_store = Some True"
    by (simp add: initial_state_def)
  have b: "getNotificationsList rejecting_hooks (plus1 (page initial_state default_store))
       (getStoreQuery rejecting_hooks default_store) = Inl Rejected"
    by (simp add: rejecting_hooks_def)
  have p: "plus1 (page initial_state default_store) = Num 1"
    by (simp add: initial_state_def plus1_def)
  from rejected_fetch_effects [of rejecting_hooks "Num 0" default_store Rejected True
      initial_state] a b p
  show ?thesis by simp
qed

subsection \<open>updateAction\<close>

lemma setStatusDone_Inr:
  assumes "setStatusDone m = Inr m'"
  shows "m_id m' = m_id m" "action_status m' = Some DONE"
  using assms
  by (auto simp: setStatusDone_def action_status_def split: option.splits)

lemma patchMessages_resolved:
  "patchMessages M ms = (None, ms') \<Longrightarrow>
   list_all2 (\<lambda>m m'. m_id m' = m_id m \<and> (m_id m \<noteq> M \<longrightarrow> m' = m)
                \<and> (m_id m = M \<longrightarrow> action_status m' = Some DONE)) ms ms'"
proof (induction ms arbitrary: ms')
  case Nil
  then show ?case by simp
next
  case (Cons m ms)
  obtain e rest where r: "patchMessages M ms = (e, rest)"
    by (cases "patchMessages M ms")
  show ?case
  proof (cases "m_id m = M")
    case True
    with Cons.prems r obtain m' where m': "setStatusDone m = Inr m'"
      and e: "e = None" and ms': "ms' = m' # rest"
      by (auto split: sum.splits)
    from Cons.IH [of rest] r e have "list_all2 (\<lambda>m m'. m_id m' = m_id m \<and> (m_id m \<noteq> M \<longrightarrow> m' = m)
                \<and> (m_id m = M \<longrightarrow> action_status m' = Some DONE)) ms rest"
      by simp
    with True ms' setStatusDone_Inr [OF m'] show ?thesis by simp
  next
    case False
    with Cons.prems r have e: "e = None" and ms': "ms' = m # rest"
      by auto
    from Cons.IH [of rest] r e have "list_all2 (\<lambda>m m'. m_id m' = m_id m \<and> (m_id m \<noteq> M \<longrightarrow> m' = m)
                \<and> (m_id m = M \<longrightarrow> action_status m' = Some DONE)) ms rest"
      by simp
    with False ms' show ?thesis by simp
  qed
qed

lemma patchStores_resolved:
  "patchStores M ns = (None, ns') \<Longrightarrow>
   list_all2 (\<lambda>e e'. fst e' = fst e \<and>
       (\<exists>ms ms'. snd e = Some ms \<and> snd e' = Some ms'
          \<and> list_all2 (\<lambda>m m'. m_id m' = m_id m \<and> (m_id m \<noteq> M \<longrightarrow> m' = m)
                \<and> (m_id m = M \<longrightarrow> action_status m' = Some DONE)) ms ms')) ns ns'"
proof (induction ns arbitrary: ns')
  case Nil
  then show ?case by simp
next
  case (Cons entry ns)
  obtain k v where entry: "entry = (k, v)"
    by (cases entry)
  from Cons.prems entry obtain ms where v: "v = Some ms"
    by (cases v) auto
  obtain e1 ms' where pm: "patchMessages M ms = (e1, ms')"
    by (cases "patchMessages M ms")
  obtain e2 rest where ps: "patchStores M ns = (e2, rest)"
    by (cases "patchStores M ns")
  from Cons.prems entry v pm have e1: "e1 = None"
    by (cases e1) auto
  with Cons.prems entry v pm ps have e2: "e2 = None" and ns': "ns' = (k, Some ms') # rest"
    by auto
  from patchMessages_resolved pm e1 have
    "list_all2 (\<lambda>m m'. m_id m' = m_id m \<and> (m_id m \<noteq> M \<longrightarrow> m' = m)
                \<and> (m_id m = M \<longrightarrow> action_status m' = Some DONE)) ms ms'"
    by blast
  moreover from Cons.IH [of rest] ps e2 have
    "list_all2 (\<lambda>e e'. fst e' = fst e \<and>
       (\<exists>ms ms'. snd e = Some ms \<and> snd e' = Some ms'
          \<and> list_all2 (\<lambda>m m'. m_id m' = m_id m \<and> (m_id m \<noteq> M \<longrightarrow> m' = m)
                \<and> (m_id m = M \<longrightarrow> action_status m' = Some DONE)) ms ms')) ns rest"
    by simp
  ultimately show ?case
    using entry v ns' by simp
qed

lemma updateAction_resolved:
  assumes "updateAction c M bt S pl s = (None, s')"
  shows "patchStores M (notifications s) = (None, notifications s')"
    and "api_updateAction c M bt S pl = Inr ()"
  using assms
  by (auto simp: updateAction_def Let_def split: sum.splits prod.splits)

lemma patched_all_done:
  assumes "list_all2 (\<lambda>e e'. fst e' = fst e \<and>
       (\<exists>ms ms'. snd e = Some ms \<and> snd e' = Some ms'
          \<and> list_all2 (\<lambda>m m'. m_id m' = m_id m \<and> (m_id m \<noteq> M \<longrightarrow> m' = m)
                \<and> (m_id m = M \<longrightarrow> action_status m' = Some DONE)) ms ms')) ns ns'"
    and "e' \<in> set ns'" and "snd e' = Some ms'" and "m' \<in> set ms'" and "m_id m' = M"
  shows "action_status m' = Some DONE"
proof -
  from assms(2) obtain i where i: "i < length ns'" and e': "ns' ! i = e'"
    by (auto simp: in_set_conv_nth)
  from list_all2_nthD2 [OF assms(1) i] e' assms(3) obtain ms where
    l: "list_all2 (\<lambda>m m'. m_id m' = m_id m \<and> (m_id m \<noteq> M \<longrightarrow> m' = m)
                \<and> (m_id m = M \<longrightarrow> action_status m' = Some DONE)) ms ms'"
    by auto
  from assms(4) obtain j where j: "j < length ms'" and m': "ms' ! j = m'"
    by (auto simp: in_set_conv_nth)
  from list_all2_nthD2 [OF l j] m' assms(5) show ?thesis
    by simp
qed

text \<open>
  C5. After \<open>updateAction\<close> on message id \<open>M\<close> has completed, every message with id \<open>M\<close> in
  every store's list has action status \<open>DONE\<close>; the stores and the lengths and order of
  their lists are as before, and every message whose id is not \<open>M\<close> is unchanged.
\<close>

theorem updateAction_done_and_frame:
  assumes "updateAction c M bt S pl s = (None, s')"
  shows "(\<forall>e' \<in> set (notifications s'). \<forall>ms'. snd e' = Some ms' \<longrightarrow>
            (\<forall>m' \<in> set ms'. m_id m' = M \<longrightarrow> action_status m' = Some DONE))
       \<and> list_all2 (\<lambda>e e'. fst e' = fst e \<and>
            (\<exists>ms ms'. snd e = Some ms \<and> snd e' = Some ms'
               \<and> list_all2 (\<lambda>m m'. m_id m' = m_id m \<and> (m_id m \<noteq> M \<longrightarrow> m' = m)) ms ms'))
           (notifications s) (notifications s')"
proof -
  let ?R = "\<lambda>m m'. m_id m' = m_id m \<and> (m_id m \<noteq> M \<longrightarrow> m' = m)
                \<and> (m_id m = M \<longrightarrow> action_status m' = Some DONE)"
  let ?Q = "\<lambda>e e'. fst e' = fst e \<and>
       (\<exists>ms ms'. snd e = Some ms \<and> snd e' = Some ms' \<and> list_all2 ?R ms ms')"
  have all: "list_all2 ?Q (notifications s) (notifications s')"
    using patchStores_resolved [OF updateAction_resolved(1) [OF assms]] .
  have alldone: "\<forall>e' \<in> set (notifications s'). \<forall>ms'. snd e' = Some ms' \<longrightarrow>
            (\<forall>m' \<in> set ms'. m_id m' = M \<longrightarrow> action_status m' = Some DONE)"
    using patched_all_done [OF all] by blast
  have weaker: "list_all2 ?R ms ms' \<Longrightarrow>
      list_all2 (\<lambda>m m'. m_id m' = m_id m \<and> (m_id m \<noteq> M \<longrightarrow> m' = m)) ms ms'" for ms ms'
    by (erule list_all2_mono) simp
  have frame: "list_all2 (\<lambda>e e'. fst e' = fst e \<and>
            (\<exists>ms ms'. snd e = Some ms \<and> snd e' = Some ms'
               \<and> list_all2 (\<lambda>m m'. m_id m' = m_id m \<and> (m_id m \<noteq> M \<longrightarrow> m' = m)) ms ms'))
           (notifications s) (notifications s')"
    using all by (rule list_all2_mono) (use weaker in blast)
  from alldone frame show ?thesis by blast
qed

theorem updateAction_done_and_frame_witness:
  "fst (updateAction (sample_hooks []) ''m1'' PRIMARY DONE None sample_state) = None
   \<and> map (\<lambda>e. (fst e, map_option (map (\<lambda>m. (m_id m, action_status m))) (snd e)))
       (notifications (snd (updateAction (sample_hooks []) ''m1'' PRIMARY DONE None sample_state)))
     = [(default_store, Some [(''m1'', Some DONE), (''m2'', Some PENDING), (''m3'', Some PENDING)]),
        (''archive'', Some [(''m1'', Some DONE)])]
   \<and> list_all2 (\<lambda>e e'. fst e' = fst e \<and>
            (\<exists>ms ms'. snd e = Some ms \<and> snd e' = Some ms'
               \<and> list_all2 (\<lambda>m m'. m_id m' = m_id m \<and> (m_id m \<noteq> ''m1'' \<longrightarrow> m' = m)) ms ms'))
           (notifications sample_state)
           (notifications (snd (updateAction (sample_hooks []) ''m1'' PRIMARY DONE None sample_state)))"
proof -
  let ?r = "updateAction (sample_hooks []) ''m1'' PRIMARY DONE None sample_state"
  have f: "fst ?r = None"
    by (simp add: updateAction_def sample_hooks_def sample_state_def initial_state_def
        sample_message_def setStatusDone_def Let_def)
  then have run: "?r = (None, snd ?r)"
    by (simp add: prod_eq_iff)
  have v: "map (\<lambda>e. (fst e, map_option (map (\<lambda>m. (m_id m, action_status m))) (snd e)))
       (notifications (snd ?r))
     = [(default_store, Some [(''m1'', Some DONE), (''m2'', Some PENDING), (''m3'', Some PENDING)]),
        (''archive'', Some [(''m1'', Some DONE)])]"
    by (simp add: updateAction_def sample_hooks_def sample_state_def initial_state_def
        sample_message_def setStatusDone_def action_status_def Let_def)
  from updateAction_done_and_frame [OF run] f v show ?thesis by blast
qed

text \<open>
  C10. The status argument of \<open>updateAction\<close> goes to the remote call and nowhere else:
  for two status arguments on which the remote call has the same outcome, the outcome
  and the provider's state afterwards are the same, the remote call is made with the
  status given, and on completion the matching messages have status \<open>DONE\<close> whatever
  the argument was.
\<close>

theorem updateAction_status_argument:
  assumes "api_updateAction c M bt S1 pl = api_updateAction c M bt S2 pl"
  shows "fst (updateAction c M bt S1 pl s) = fst (updateAction c M bt S2 pl s)
       \<and> local_state (snd (updateAction c M bt S1 pl s))
           = local_state (snd (updateAction c M bt S2 pl s))
       \<and> calls (snd (updateAction c M bt S1 pl s)) = calls s @ [UpdateAction M bt S1 pl]
       \<and> (fst (updateAction c M bt S1 pl s) = None \<longrightarrow>
            (\<forall>e' \<in> set (notifications (snd (updateAction c M bt S1 pl s))). \<forall>ms'.
               snd e' = Some ms' \<longrightarrow>
                 (\<forall>m' \<in> set ms'. m_id m' = M \<longrightarrow> action_status m' = Some DONE)))"
proof -
  have same: "fst (updateAction c M bt S1 pl s) = fst (updateAction c M bt S2 pl s)"
    "local_state (snd (updateAction c M bt S1 pl s))
       = local_state (snd (updateAction c M bt S2 pl s))"
    using assms
    by (simp_all add: updateAction_def local_state_def Let_def split: sum.split prod.split)
  have log: "calls (snd (updateAction c M bt S1 pl s)) = calls s @ [UpdateAction M bt S1 pl]"
    by (simp add: updateAction_def Let_def split: sum.split prod.split)
  have alldone: "\<forall>e' \<in> set (notifications (snd (updateAction c M bt S1 pl s))). \<forall>ms'.
               snd e' = Some ms' \<longrightarrow>
                 (\<forall>m' \<in> set ms'. m_id m' = M \<longrightarrow> action_status m' = Some DONE)"
    if "fst (updateAction c M bt S1 pl s) = None"
  proof -
    from that have "updateAction c M bt S1 pl s = (None, snd (updateAction c M bt S1 pl s))"
      by (simp add: prod_eq_iff)
    from patchStores_resolved [OF updateAction_resolved(1) [OF this]]
    show ?thesis
      using patched_all_done by blast
  qed
  from same log alldone show ?thesis by blast
qed

theorem updateAction_status_argument_witness:
  "api_updateAction (sample_hooks []) ''m1'' PRIMARY PENDING None
     = api_updateAction (sample_hooks []) ''m1'' PRIMARY DONE None
   \<and> fst (updateAction (sample_hooks []) ''m1'' PRIMARY PENDING None sample_state) = None
   \<and> local_state (snd (updateAction (sample_hooks []) ''m1'' PRIMARY PENDING None sample_state))
       = local_state (snd (updateAction (sample_hooks []) ''m1'' PRIMARY DONE None sample_state))
   \<and> calls (snd (updateAction (sample_hooks []) ''m1'' PRIMARY PENDING None sample_state))
       = [UpdateAction ''m1'' PRIMARY PENDING None]
   \<and> map (map_option (map action_status) \<circ> snd)
       (notifications (snd (updateAction (sample_hooks []) ''m1'' PRIMARY PENDING None sample_state)))
     = [Some [Some DONE, Some PENDING, Some PENDING], Some [Some DONE]]"
proof -
  have a: "api_updateAction (sample_hooks []) ''m1'' PRIMARY PENDING None
     = api_updateAction (sample_hooks []) ''m1'' PRIMARY DONE None"
    by (simp add: sample_hooks_def)
  have f: "fst (updateAction (sample_hooks []) ''m1'' PRIMARY PENDING None sample_state) = None"
    by (simp add: updateAction_def sample_hooks_def sample_state_def initial_state_def
        sample_message_def setStatusDone_def Let_def)
  have v: "map (map_option (map action_status) \<circ> snd)
       (notifications (snd (updateAction (sample_hooks []) ''m1'' PRIMARY PENDING None sample_state)))
     = [Some [Some DONE, Some PENDING, Some PENDING], Some [Some DONE]]"
    by (simp add: updateAction_def sample_hooks_def sample_state_def initial_state_def
        sample_message_def setStatusDone_def action_status_def Let_def)
  have c0: "calls sample_state = []"
    by (simp add: sample_state_def initial_state_def)
  from updateAction_status_argument [OF a, of sample_state] a f v c0 show ?thesis by simp
qed

subsection \<open>markAsRead\<close>

text \<open>
  \<open>markAsRead\<close> patches no message: the remote side answers with the message \<open>m1\<close> marked
  read, and both stores that contain \<open>m1\<close> still hold it as it was, its \<open>read\<close> field
  undefined.
\<close>

theorem markAsRead_counterexample:
  "fst (markAsRead (sample_hooks []) ''m1'' sample_state)
     = Inr (sample_message ''m1'' True (Some True))
   \<and> notifications (snd (markAsRead (sample_hooks []) ''m1'' sample_state))
     = [(default_store, Some [sample_message ''m1'' False None, sample_message ''m2'' True None,
           sample_message ''m3'' False (Some False)]),
        (''archive'', Some [sample_message ''m1'' True None])]
   \<and> read (sample_message ''m1'' False None) = None
   \<and> seen (sample_message ''m1'' False None) = False"
  by (simp add: markAsRead_def sample_hooks_def sample_state_def sample_message_def)

text \<open>
  C6, as the code has it. \<open>markAsRead\<close> makes the remote mark-as-read call and returns
  its outcome; it patches nothing locally, and the provider's state is as before.
\<close>

theorem markAsRead_remote_only:
  "fst (markAsRead c messageId s) = markMessageAsRead c messageId
   \<and> calls (snd (markAsRead c messageId s)) = calls s @ [MarkMessageAsRead messageId]
   \<and> local_state (snd (markAsRead c messageId s)) = local_state s"
  by (simp add: markAsRead_def local_state_def)

subsection \<open>markNotificationsAsSeen\<close>

lemma seen_ids_sent_append:
  "seen_ids_sent (xs @ ys) = seen_ids_sent xs @ seen_ids_sent ys"
  by (induction xs rule: seen_ids_sent.induct) simp_all

text \<open>
  C7. For a store with a message list, \<open>markNotificationsAsSeen\<close> without explicit
  messages hands to the remote mark-as-seen call exactly the ids of the store's messages
  whose \<open>seen\<close> flag is false, restricted, when \<open>readExist\<close> is true, to those whose \<open>read\<close>
  field is defined. It does so in a single call, which is made when the store has an
  unseen message at all.
\<close>

theorem markNotificationsAsSeen_selection:
  assumes "map_of (notifications s) storeId = Some (Some ms)"
  shows "seen_ids_sent (calls (snd (markNotificationsAsSeen c readExist None storeId s)))
           = seen_ids_sent (calls s)
             @ map m_id (filter (\<lambda>m. \<not> seen m \<and> (readExist = Some True \<longrightarrow> read m \<noteq> None)) ms)
       \<and> calls (snd (markNotificationsAsSeen c readExist None storeId s))
           = calls s @
             (if filter (\<lambda>m. \<not> seen m) ms = [] then []
              else [MarkMessageAsSeen (map m_id
                      (filter (\<lambda>m. \<not> seen m \<and> (readExist = Some True \<longrightarrow> read m \<noteq> None)) ms))])"
proof -
  let ?sel = "filter (\<lambda>m. \<not> seen m \<and> (readExist = Some True \<longrightarrow> read m \<noteq> None)) ms"
  have sel: "filterReadNotifications readExist (filter (\<lambda>m. \<not> seen m) ms) = ?sel"
    by (auto simp: filterReadNotifications_def intro: filter_cong)
  have log: "calls (snd (markNotificationsAsSeen c readExist None storeId s))
           = calls s @
             (if filter (\<lambda>m. \<not> seen m) ms = [] then []
              else [MarkMessageAsSeen (map m_id ?sel)])"
    using assms sel
    by (simp add: markNotificationsAsSeen_def getNotificationsToMark_def Let_def)
  have none: "?sel = []" if "filter (\<lambda>m. \<not> seen m) ms = []"
    using that by (auto simp: filter_empty_conv)
  from log none show ?thesis
    by (simp add: seen_ids_sent_append)
qed

theorem markNotificationsAsSeen_selection_witness:
  "map_of (notifications sample_state) default_store
     = Some (Some [sample_message ''m1'' False None, sample_message ''m2'' True None,
           sample_message ''m3'' False (Some False)])
   \<and> calls (snd (markNotificationsAsSeen (sample_hooks []) None None default_store sample_state))
       = [MarkMessageAsSeen [''m1'', ''m3'']]
   \<and> calls (snd (markNotificationsAsSeen (sample_hooks []) (Some True) None default_store
        sample_state))
       = [MarkMessageAsSeen [''m3'']]"
proof -
  have a: "map_of (notifications sample_state) default_store
     = Some (Some [sample_message ''m1'' False None, sample_message ''m2'' True None,
           sample_message ''m3'' False (Some False)])"
    by (simp add: sample_state_def initial_state_def)
  have c0: "calls sample_state = []"
    by (simp add: sample_state_def initial_state_def)
  from markNotificationsAsSeen_selection [OF a, of "sample_hooks []" None]
    markNotificationsAsSeen_selection [OF a, of "sample_hooks []" "Some True"] a c0
  show ?thesis
    by (simp add: sample_message_def ex_bool_eq)
qed

subsection \<open>refetch\<close>

lemma fetchPage_runtime:
  "timers (snd (fetchPage c p r storeId s)) = timers s"
  "refetchTimeout (snd (fetchPage c p r storeId s)) = refetchTimeout s"
  "nextTimeout (snd (fetchPage c p r storeId s)) = nextTimeout s"
  "calls (snd (fetchPage c p r storeId s)) = calls s @ [GetNotificationsList p (getStoreQuery c storeId)]"
  by (simp_all add: fetchPage_def Let_def split: sum.split option.split)

lemma fireTimer_effect:
  "timers (fireTimer c tm s) = filter (\<lambda>tm'. fst tm' \<noteq> fst tm) (timers s)"
  "refetchTimeout (fireTimer c tm s) = refetchTimeout s"
  "nextTimeout (fireTimer c tm s) = nextTimeout s"
  "calls (fireTimer c tm s) = calls s @ page0_fetches c [tm]"
  by (simp_all add: fireTimer_def fetchPage_runtime page0_fetches_def)

lemma fold_fireTimer_effect:
  "set (timers (fold (fireTimer c) tms s)) \<subseteq> set (timers s)"
  "refetchTimeout (fold (fireTimer c) tms s) = refetchTimeout s"
  "nextTimeout (fold (fireTimer c) tms s) = nextTimeout s"
  "calls (fold (fireTimer c) tms s) = calls s @ page0_fetches c tms"
proof (induction tms arbitrary: s)
  case Nil
  {
    case 1 show ?case by simp
  next
    case 2 show ?case by simp
  next
    case 3 show ?case by simp
  next
    case 4 show ?case by (simp add: page0_fetches_def)
  }
next
  case (Cons tm tms)
  {
    case 1
    have "set (timers (fold (fireTimer c) tms (fireTimer c tm s))) \<subseteq> set (timers (fireTimer c tm s))"
      by (rule Cons.IH(1))
    also have "\<dots> \<subseteq> set (timers s)"
      by (auto simp: fireTimer_effect)
    finally show ?case by simp
  next
    case 2 show ?case by (simp add: Cons.IH(2) fireTimer_effect)
  next
    case 3 show ?case by (simp add: Cons.IH(3) fireTimer_effect)
  next
    case 4 show ?case by (simp add: Cons.IH(4) fireTimer_effect page0_fetches_def)
  }
qed

lemma advance_effect:
  "set (timers (advance c t s)) \<subseteq> set (timers s)"
  "refetchTimeout (advance c t s) = refetchTimeout s"
  "nextTimeout (advance c t s) = nextTimeout s"
  "calls (advance c t s) = calls s @ page0_fetches c (due_timers t s)"
  "clock (advance c t s) = max (clock s) t"
  by (simp_all add: advance_def fold_fireTimer_effect)

lemma tracked_advance:
  assumes "tracked storeId s"
  shows "tracked storeId (advance c t s)"
  using assms advance_effect(1) [of c t s]
  by (auto simp: tracked_def advance_effect(2))

lemma refetch_effect:
  assumes "tracked storeId s"
  shows "for_store storeId (timers (refetch storeId s))
           = [(Timeout (nextTimeout s), clock s + 250, storeId)]"
    and "tracked storeId (refetch storeId s)"
    and "calls (refetch storeId s) = calls s"
    and "clock (refetch storeId s) = clock s"
    and "nextTimeout (refetch storeId s) = Suc (nextTimeout s)"
proof -
  have none: "for_store storeId (timers s) = []"
    if "refetchTimeout s storeId = None \<or> refetchTimeout s storeId = Some None"
    using that assms by (auto simp: tracked_def for_store_def filter_empty_conv)
  have cleared: "for_store storeId (filter (\<lambda>tm. fst tm \<noteq> h) (timers s)) = []"
    if "refetchTimeout s storeId = Some (Some h)" for h
    using that assms by (auto simp: tracked_def for_store_def filter_empty_conv)
  show "for_store storeId (timers (refetch storeId s))
           = [(Timeout (nextTimeout s), clock s + 250, storeId)]"
    using none cleared
    by (auto simp: refetch_def setTimeout_def clearTimeout_def Let_def for_store_def
        split: option.split)
  then show "tracked storeId (refetch storeId s)"
    by (auto simp: tracked_def for_store_def filter_eq_Cons_iff filter_empty_conv
        refetch_def setTimeout_def clearTimeout_def Let_def split: option.splits)
  show "calls (refetch storeId s) = calls s"
    and "clock (refetch storeId s) = clock s"
    and "nextTimeout (refetch storeId s) = Suc (nextTimeout s)"
    by (simp_all add: refetch_def setTimeout_def clearTimeout_def Let_def split: option.split)
qed

text \<open>
  The condition \<open>tracked\<close> holds at the start and is kept by every operation of the
  provider and by the passing of time, so it holds whenever \<open>refetch\<close> is called.
\<close>

lemma tracked_initial: "tracked storeId initial_state"
  by (simp add: tracked_def initial_state_def)

lemma tracked_fetchPage:
  "tracked storeId s \<Longrightarrow> tracked storeId (snd (fetchPage c p r storeId' s))"
  by (simp add: tracked_def fetchPage_runtime)

lemma tracked_fetchNextPage:
  "tracked storeId s \<Longrightarrow> tracked storeId (snd (fetchNextPage c storeId' s))"
  by (simp add: tracked_def fetchNextPage_def fetchPage_runtime Let_def)

lemma tracked_markAsRead:
  "tracked storeId s \<Longrightarrow> tracked storeId (snd (markAsRead c messageId s))"
  by (simp add: tracked_def markAsRead_def)

lemma tracked_updateAction:
  "tracked storeId s \<Longrightarrow> tracked storeId (snd (updateAction c M bt S pl s))"
  by (simp add: tracked_def updateAction_def Let_def split: sum.split prod.split)

lemma tracked_markNotificationsAsSeen:
  "tracked storeId s \<Longrightarrow>
   tracked storeId (snd (markNotificationsAsSeen c readExist messagesToMark storeId' s))"
  by (simp add: tracked_def markNotificationsAsSeen_def Let_def split: sum.split)

lemma tracked_refetch_other:
  assumes "tracked storeId s" and "storeId' \<noteq> storeId"
  shows "tracked storeId (refetch storeId' s)"
  using assms
  by (auto simp: tracked_def refetch_def setTimeout_def clearTimeout_def Let_def
      split: option.splits)

lemma for_store_due_timers:
  "for_store storeId (due_timers t s)
     = sort_key (\<lambda>tm. fst (snd tm)) (filter (\<lambda>tm. fst (snd tm) \<le> t) (for_store storeId (timers s)))"
proof -
  have "filter (\<lambda>tm. snd (snd tm) = storeId) (filter (\<lambda>tm. fst (snd tm) \<le> t) (timers s))
      = filter (\<lambda>tm. fst (snd tm) \<le> t) (filter (\<lambda>tm. snd (snd tm) = storeId) (timers s))"
    by (auto intro: filter_cong)
  then show ?thesis
    by (simp only: for_store_def due_timers_def filter_sort)
qed

text \<open>
  C9. Two \<open>refetch\<close> calls for a store less than 250 ms apart: the first call's timer
  does not fire before the second call, the second call cancels it and sets a new one
  due 250 ms later, and of the store's timers exactly that one fires; every firing timer
  makes exactly one request for page 0, so the store is fetched once.
\<close>

theorem refetch_debounced:
  assumes "tracked storeId s0"
    and "clock s0 \<le> t2" and "t2 < clock s0 + 250" and "t2 + 250 \<le> t3"
  shows "(let s1 = refetch storeId s0; s2 = advance c t2 s1;
             s3 = refetch storeId s2; s4 = advance c t3 s3
          in for_store storeId (timers s1) = [(Timeout (nextTimeout s0), clock s0 + 250, storeId)]
           \<and> for_store storeId (due_timers t2 s1) = []
           \<and> for_store storeId (timers s3)
               = [(Timeout (Suc (nextTimeout s0)), t2 + 250, storeId)]
           \<and> for_store storeId (due_timers t3 s3)
               = [(Timeout (Suc (nextTimeout s0)), t2 + 250, storeId)]
           \<and> calls s4 = calls s0 @ page0_fetches c (due_timers t2 s1)
                          @ page0_fetches c (due_timers t3 s3)
           \<and> length (for_store storeId (due_timers t2 s1 @ due_timers t3 s3)) = 1)"
proof -
  define s1 where "s1 = refetch storeId s0"
  define s2 where "s2 = advance c t2 s1"
  define s3 where "s3 = refetch storeId s2"
  define s4 where "s4 = advance c t3 s3"
  have t1: "for_store storeId (timers s1) = [(Timeout (nextTimeout s0), clock s0 + 250, storeId)]"
    unfolding s1_def by (rule refetch_effect(1) [OF assms(1)])
  have d1: "for_store storeId (due_timers t2 s1) = []"
    using assms(3) by (simp add: for_store_due_timers t1)
  have tr2: "tracked storeId s2"
    unfolding s2_def s1_def by (intro tracked_advance refetch_effect(2) assms(1))
  have c2: "clock s2 = t2"
    using assms(2) by (simp add: s2_def s1_def advance_effect refetch_effect(4) [OF assms(1)])
  have n2: "nextTimeout s2 = Suc (nextTimeout s0)"
    by (simp add: s2_def s1_def advance_effect refetch_effect(5) [OF assms(1)])
  have t3: "for_store storeId (timers s3) = [(Timeout (Suc (nextTimeout s0)), t2 + 250, storeId)]"
    using refetch_effect(1) [OF tr2] by (simp add: s3_def c2 n2)
  have d3: "for_store storeId (due_timers t3 s3)
      = [(Timeout (Suc (nextTimeout s0)), t2 + 250, storeId)]"
    using assms(4) by (simp add: for_store_due_timers t3)
  have log: "calls s4 = calls s0 @ page0_fetches c (due_timers t2 s1)
                          @ page0_fetches c (due_timers t3 s3)"
    by (simp add: s4_def s3_def advance_effect refetch_effect(3) [OF tr2]
        s2_def [symmetric], simp add: s2_def advance_effect s1_def [symmetric],
        simp add: s1_def refetch_effect(3) [OF assms(1)])
  have once: "length (for_store storeId (due_timers t2 s1 @ due_timers t3 s3)) = 1"
    using d1 d3 by (simp add: for_store_def)
  from t1 d1 t3 d3 log once show ?thesis
    by (simp add: Let_def s1_def s2_def s3_def s4_def)
qed

theorem refetch_debounced_witness:
  "tracked default_store initial_state
   \<and> clock initial_state \<le> 100 \<and> (100::nat) < clock initial_state + 250 \<and> (100::nat) + 250 \<le> 400
   \<and> calls (advance (sample_hooks []) 400 (refetch default_store
        (advance (sample_hooks []) 100 (refetch default_store initial_state))))
       = [GetNotificationsList (Num 0) []]
   \<and> for_store default_store (timers (refetch default_store
        (advance (sample_hooks []) 100 (refetch default_store initial_state))))
       = [(Timeout 1, 350, default_store)]"
proof -
  have tr: "tracked default_store initial_state"
    by (simp add: tracked_def initial_state_def)
  have c0: "clock initial_state = 0" "calls initial_state = []" "nextTimeout initial_state = 0"
    by (simp_all add: initial_state_def)
  have d1: "due_timers 100 (refetch default_store initial_state) = []"
    by (simp add: due_timers_def refetch_def setTimeout_def initial_state_def Let_def)
  have a1: "advance (sample_hooks []) 100 (refetch default_store initial_state)
      = (refetch default_store initial_state)\<lparr>clock := 100\<rparr>"
    by (simp add: advance_def d1 refetch_effect(4) [OF tr] c0)
  have d3: "due_timers 400 (refetch default_store
        (advance (sample_hooks []) 100 (refetch default_store initial_state)))
      = [(Timeout 1, 350, default_store)]"
    unfolding a1
    by (simp add: due_timers_def refetch_def setTimeout_def clearTimeout_def
        initial_state_def Let_def)
  have q: "getStoreQuery (sample_hooks []) default_store = []"
    by (simp add: getStoreQuery_def sample_hooks_def)
  from refetch_debounced [OF tr, of 100 400 "sample_hooks []"] tr c0 d1 d3 q
  show ?thesis
    by (simp add: Let_def page0_fetches_def)
qed

end
